theory Spec2Isabelle
  imports Main
begin

section \<open>Data model (main.go, lines 26-99)\<close>

text \<open>
  The structs of main.go as records. Go's \<open>int\<close> is a machine integer; it is
  modelled by the unbounded \<open>int\<close>, which agrees with the program as long as no
  counter or index arithmetic overflows. The counters are only incremented and compared
  for equality, the indices only compared and used to index a slice. The time stamps of
  \<open>Summary\<close> are left out. Field names that two structs share carry the struct's
  initial in the second one.
\<close>

record Summary =
  Successes :: int
  Failures :: int
  TestsToRun :: int
  TestsRan :: int
  Timeouts :: int

record Output =
  Line :: int
  SaveTo :: string
  SaveToFile :: string

record Assertion =
  ALine :: int
  ShouldBeEqualTo :: string

record Step =
  Name :: string
  OnNode :: int
  EndNode :: int
  CMD :: string
  Timeout :: int
  Outputs :: "Output list"
  Inputs :: "string list"
  Assertions :: "Assertion list"
  WriteToFile :: string

record Expected =
  ESuccesses :: int
  EFailures :: int
  ETimeouts :: int

record Config =
  Nodes :: int
  Selector :: string
  Times :: int
  GraceShutdown :: int
  Expect :: Expected

record Test =
  TName :: string
  Conf :: Config
  Steps :: "Step list"

record Pod =
  Metadata_Name :: string
  Status_Phase :: string

record GetPodsOutput =
  Items :: "Pod list"

text \<open>
  The ways a run ends before \<open>evaluateOutcome\<close>: \<open>fatal\<close> (exit status 1), a
  run-time panic of Go (exit status 2), the polling loop of \<open>scaleTo\<close> never ending,
  and a regular expression or subject string outside the fragment of Go's regexp
  package that is modelled below.
\<close>

datatype fault =
  Fatal
  | IndexOutOfRange
  | NegativeChanSize
  | NilDereference
  | ScaleNeverReady
  | RegexpOutsideModel

section \<open>Strings (package strings)\<close>

text \<open>\<open>strings.Split(s, "\n")\<close>: one element more than \<open>s\<close> has newlines.\<close>

fun Split_newline :: "string \<Rightarrow> string list" where
  "Split_newline [] = [[]]"
| "Split_newline (c # cs) =
     (if c = CHR 0x0A then [] # Split_newline cs
      else (case Split_newline cs of [] \<Rightarrow> [[c]] | l # ls \<Rightarrow> (c # l) # ls))"

text \<open>\<open>strings.Join(out, "\n")\<close>.\<close>

fun Join_newline :: "string list \<Rightarrow> string" where
  "Join_newline [] = []"
| "Join_newline [l] = l"
| "Join_newline (l # ls) = l @ [CHR 0x0A] @ Join_newline ls"

section \<open>Regular expressions (package regexp, a fragment)\<close>

text \<open>
  \<open>handleStep\<close> compiles \<open>^TARGET="(.*)"$\<close> with \<open>regexp.MustCompile\<close> and applies
  \<open>FindStringSubmatch\<close>. The model covers the patterns of the shape \<open>^ ... $\<close> whose
  body is built from literal ASCII characters, \<open>.\<close>, a star after either, and
  capture groups that are not nested and carry no repetition. \<open>MustCompile\<close> answers
  \<open>None\<close> for every other pattern: there Go panics (a syntax error) or uses syntax
  that is not modelled. Matching is the backtracking search that the package documents
  as its leftmost-first semantics: a star takes as many characters as it can and gives
  them back one by one. Without flags \<open>.\<close> matches every character but the newline,
  \<open>^\<close> the start and \<open>$\<close> the end of the text.
\<close>

datatype atom = Lit char | AnyChar

datatype piece = One atom | Star atom | Open | Close

definition special :: "char \<Rightarrow> bool" where
  "special c = (c \<in> set ''.+*?()|[]{}^$'' \<or> c = CHR 0x5C)"

definition ascii :: "char \<Rightarrow> bool" where
  "ascii c = (of_char c < (128::nat))"

definition atom_of :: "char \<Rightarrow> atom option" where
  "atom_of c =
     (if c = CHR ''.'' then Some AnyChar
      else if ascii c \<and> \<not> special c then Some (Lit c)
      else None)"

fun parse :: "string \<Rightarrow> bool \<Rightarrow> piece list option" where
  "parse [] inGroup = (if inGroup then None else Some [])"
| "parse (c # cs) inGroup =
     (if c = CHR ''('' then
        (if inGroup then None else map_option (Cons Open) (parse cs True))
      else if c = CHR '')'' then
        (if inGroup then map_option (Cons Close) (parse cs False) else None)
      else
        (case atom_of c of
           None \<Rightarrow> None
         | Some a \<Rightarrow>
             (case cs of
                [] \<Rightarrow> map_option (Cons (One a)) (parse [] inGroup)
              | d # ds \<Rightarrow>
                  if d = CHR ''*'' then map_option (Cons (Star a)) (parse ds inGroup)
                  else map_option (Cons (One a)) (parse (d # ds) inGroup))))"

definition MustCompile :: "string \<Rightarrow> piece list option" where
  "MustCompile p =
     (case p of
        [] \<Rightarrow> None
      | c # cs \<Rightarrow>
          if c = CHR ''^'' \<and> cs \<noteq> [] \<and> last cs = CHR ''$'' then parse (butlast cs) False
          else None)"

fun amatch :: "atom \<Rightarrow> char \<Rightarrow> bool" where
  "amatch (Lit a) c = (a = c)"
| "amatch AnyChar c = (c \<noteq> CHR 0x0A)"

text \<open>
  \<open>rmatch ps s done cur\<close>: the pieces \<open>ps\<close> match exactly the text \<open>s\<close>; \<open>done\<close>
  holds the captures of the groups closed so far and \<open>cur\<close> the text of the group that
  is open, if one is.
\<close>

fun rmatch :: "piece list \<Rightarrow> string \<Rightarrow> string list \<Rightarrow> string option \<Rightarrow> string list option" where
  "rmatch [] s done cur = (if s = [] then Some done else None)"
| "rmatch (Open # ps) s done cur = rmatch ps s done (Some [])"
| "rmatch (Close # ps) s done cur =
     rmatch ps s (done @ [case cur of None \<Rightarrow> [] | Some w \<Rightarrow> w]) None"
| "rmatch (One a # ps) [] done cur = None"
| "rmatch (One a # ps) (c # s) done cur =
     (if amatch a c then rmatch ps s done (map_option (\<lambda>w. w @ [c]) cur) else None)"
| "rmatch (Star a # ps) [] done cur = rmatch ps [] done cur"
| "rmatch (Star a # ps) (c # s) done cur =
     (if amatch a c then
        (case rmatch (Star a # ps) s done (map_option (\<lambda>w. w @ [c]) cur) of
           Some r \<Rightarrow> Some r
         | None \<Rightarrow> rmatch ps (c # s) done cur)
      else rmatch ps (c # s) done cur)"

text \<open>
  \<open>FindStringSubmatch\<close>: the empty slice when the text does not match, else the whole
  match (the text, as the pattern is anchored at both ends) followed by one capture per
  group. A text with a byte outside ASCII is outside the model (\<open>None\<close>): there \<open>.\<close>
  consumes a whole UTF-8 sequence.
\<close>

definition FindStringSubmatch :: "piece list \<Rightarrow> string \<Rightarrow> string list option" where
  "FindStringSubmatch rex e =
     (if list_all ascii e then
        Some (case rmatch rex e [] None of None \<Rightarrow> [] | Some caps \<Rightarrow> e # caps)
      else None)"

section \<open>Running a command in a pod (main.go, lines 325-407)\<close>

text \<open>
  \<open>runInPodAsync\<close> starts \<open>kubectl exec NAME -t -- bash -c SCRIPT\<close> with the
  environment as a prefix of the script. The call it makes is a value of the model; what
  the cluster answers is an input of the model (see \<open>step_io\<close>).
\<close>

record exec_call =
  call_pod :: string
  call_script :: string
  call_timeout :: int

definition envString :: "string list \<Rightarrow> string" where
  "envString env =
     (let s = concat (map (\<lambda>e. e @ '' '') env) in if s \<noteq> [] then s @ ''&& '' else s)"

definition runInPodAsync :: "string \<Rightarrow> string \<Rightarrow> string list \<Rightarrow> int \<Rightarrow> exec_call" where
  "runInPodAsync name cmdToRun env timeout =
     \<lparr>call_pod = name, call_script = envString env @ cmdToRun, call_timeout = timeout\<rparr>"

text \<open>
  What a call sends back, from the standard output of the command and from whether the
  timer's function had set \<open>timeout_reached\<close> when it was read (lines 344-367): the
  timer exists only when the timeout is not 0, and the lines are the output split at
  newlines, as they are.
\<close>

definition runInPodAsync_result :: "int \<Rightarrow> string \<times> bool \<Rightarrow> string list \<times> bool" where
  "runInPodAsync_result timeout r =
     (Split_newline (fst r), if timeout \<noteq> 0 then snd r else False)"

text \<open>The synchronous \<open>runInPod\<close> (lines 371-407) drops the last element of the split.\<close>

definition runInPod_result :: "int \<Rightarrow> string \<times> bool \<Rightarrow> string list \<times> bool" where
  "runInPod_result timeout r =
     (butlast (Split_newline (fst r)), if timeout \<noteq> 0 then snd r else False)"

section \<open>handleStep (main.go, lines 173-261)\<close>

text \<open>
  The state \<open>handleStep\<close> changes: the summary behind the pointer, the environment it
  returns, and the data appended to files (path and data of every \<open>WriteString\<close>, in
  order).
\<close>

record run_state =
  st_summary :: Summary
  st_env :: "string list"
  st_files :: "(string \<times> string) list"

text \<open>
  The answers of the outside world to one call of \<open>handleStep\<close>: \<open>received calls k\<close>
  is what arrives on the two channels at the \<open>k\<close>-th turn of the collecting loop (the
  standard output whose lines arrive, and whether the timer had fired), given the calls
  that were started; \<open>opened k\<close> says whether \<open>os.OpenFile\<close> succeeds at that turn.
  A call sends its lines twice (line 366 and the deferred send of line 329) and its flag
  once, so the lines and the flag of one turn need not come from the same call: the
  model assumes nothing about which call a turn's lines or flag come from.
\<close>

record step_io =
  received :: "exec_call list \<Rightarrow> nat \<Rightarrow> string \<times> bool"
  opened :: "nat \<Rightarrow> bool"

text \<open>Line 217: the string appended to the environment.\<close>

definition binding :: "string \<Rightarrow> string \<Rightarrow> string" where
  "binding name line = name @ ''=\"'' @ line @ ''\"''"

text \<open>Lines 210-218: the loop over \<open>step.Outputs\<close>, \<open>index\<close> counting its turns.\<close>

fun saveOutputs :: "Output list \<Rightarrow> nat \<Rightarrow> string list \<Rightarrow> string list \<Rightarrow> string list" where
  "saveOutputs [] index out env = env"
| "saveOutputs (output # rest) index out env =
     (if index \<ge> length out then env
      else saveOutputs rest (Suc index) out (env @ [binding (SaveTo output) (out ! index)]))"

text \<open>
  Lines 227-240: the loop over the environment that looks for the value; it leaves
  \<open>value\<close> empty when no entry matches. The pattern is compiled at every turn, so an
  empty environment compiles nothing.
\<close>

fun findValue :: "string \<Rightarrow> string list \<Rightarrow> fault + string" where
  "findValue target [] = Inr []"
| "findValue target (e # es) =
     (case MustCompile (''^'' @ target @ ''=\"(.*)\"$'') of
        None \<Rightarrow> Inl RegexpOutsideModel
      | Some rex \<Rightarrow>
          (case FindStringSubmatch rex e of
             None \<Rightarrow> Inl RegexpOutsideModel
           | Some found \<Rightarrow>
               if length found = 2 \<and> found ! 1 \<noteq> [] then Inr (found ! 1)
               else findValue target es))"

text \<open>Lines 227-245: the value a line is compared with.\<close>

definition expectedValue :: "string \<Rightarrow> string list \<Rightarrow> fault + string" where
  "expectedValue target es =
     (case findValue target es of
        Inl f \<Rightarrow> Inl f
      | Inr v \<Rightarrow> Inr (if v = [] then target else v))"

text \<open>Lines 221-257: the loop over \<open>step.Assertions\<close>.\<close>

fun checkAssertions :: "Assertion list \<Rightarrow> string list \<Rightarrow> string list \<Rightarrow> Summary \<Rightarrow> fault + Summary" where
  "checkAssertions [] out es s = Inr s"
| "checkAssertions (assertion # rest) out es s =
     (if ALine assertion \<ge> int (length out) then Inr s
      else if ALine assertion < 0 then Inl IndexOutOfRange
      else
        (case expectedValue (ShouldBeEqualTo assertion) es of
           Inl f \<Rightarrow> Inl f
         | Inr v \<Rightarrow>
             if out ! nat (ALine assertion) \<noteq> v
             then checkAssertions rest out es (s\<lparr>Failures := Failures s + 1\<rparr>)
             else checkAssertions rest out es (s\<lparr>Successes := Successes s + 1\<rparr>)))"

text \<open>Lines 195-258: one turn of the collecting loop, for the pair taken from the channels.\<close>

definition handleResult :: "Step \<Rightarrow> bool \<Rightarrow> string list \<times> bool \<Rightarrow> run_state \<Rightarrow> fault + run_state" where
  "handleResult step canOpen r st =
     (let out = fst r; err = snd r in
      if err then Inr (st\<lparr>st_summary := (st_summary st)\<lparr>Timeouts := Timeouts (st_summary st) + 1\<rparr>\<rparr>)
      else
        (let files' =
               (if WriteToFile step \<noteq> [] \<and> canOpen
                then st_files st @ [(WriteToFile step, Join_newline out)]
                else st_files st);
             env' = saveOutputs (Outputs step) 0 out (st_env st)
         in case checkAssertions (Assertions step) out env' (st_summary st) of
              Inl f \<Rightarrow> Inl f
            | Inr s' \<Rightarrow> Inr (st\<lparr>st_summary := s', st_env := env', st_files := files'\<rparr>)))"

text \<open>Lines 194-259: the collecting loop, over the turns \<open>ks\<close>.\<close>

fun handleResults :: "Step \<Rightarrow> step_io \<Rightarrow> exec_call list \<Rightarrow> nat list \<Rightarrow> run_state \<Rightarrow> fault + run_state" where
  "handleResults step io calls [] st = Inr st"
| "handleResults step io calls (k # ks) st =
     (case handleResult step (opened io k)
             (runInPodAsync_result (Timeout step) (received io calls k)) st of
        Inl f \<Rightarrow> Inl f
      | Inr st' \<Rightarrow> handleResults step io calls ks st')"

text \<open>Lines 188-191: the loop that starts the calls, over the node indices \<open>js\<close>.\<close>

fun dispatch :: "Pod list \<Rightarrow> Step \<Rightarrow> string list \<Rightarrow> int list \<Rightarrow> fault + exec_call list" where
  "dispatch items step es [] = Inr []"
| "dispatch items step es (j # js) =
     (if OnNode step - 1 < 0 \<or> int (length items) \<le> OnNode step - 1 then Inl IndexOutOfRange
      else
        (case dispatch items step es js of
           Inl f \<Rightarrow> Inl f
         | Inr calls \<Rightarrow>
             Inr (runInPodAsync (Metadata_Name (items ! nat (OnNode step - 1)))
                    (CMD step) es (Timeout step) # calls)))"

definition handleStep :: "step_io \<Rightarrow> GetPodsOutput \<Rightarrow> Step \<Rightarrow> run_state \<Rightarrow> fault + run_state" where
  "handleStep io pods step st =
     (let endNode = EndNode step;
          numNodes = endNode - OnNode step + 1
      in if numNodes < 0 then Inl NegativeChanSize
         else
           (case dispatch (Items pods) step (st_env st) [OnNode step..endNode] of
              Inl f \<Rightarrow> Inl f
            | Inr calls \<Rightarrow> handleResults step io calls [0..<nat numNodes] st))"

section \<open>evaluateOutcome (main.go, lines 459-471)\<close>


section \<open>main (main.go, lines 106-171)\<close>

text \<open>
  What the cluster answers in repetition \<open>i\<close>: the pods \<open>getPods\<close> lists inside
  \<open>getRunningPods\<close> (\<open>None\<close>: the command failed), how \<open>scaleTo\<close> ends, the pods
  \<open>getPods\<close> lists at line 154, and the answers to the \<open>n\<close>-th step.
\<close>

datatype scale_outcome = ScaleDone | ScaleFailed | ScaleForever

record world =
  podsBefore :: "nat \<Rightarrow> GetPodsOutput option"
  scaleTo :: "nat \<Rightarrow> scale_outcome"
  podsAfter :: "nat \<Rightarrow> GetPodsOutput option"
  stepIo :: "nat \<Rightarrow> nat \<Rightarrow> step_io"

text \<open>Lines 286-298.\<close>

definition getRunningPods :: "GetPodsOutput option \<Rightarrow> fault + int" where
  "getRunningPods r =
     (case r of
        None \<Rightarrow> Inl Fatal
      | Some pods \<Rightarrow> Inr (int (length (filter (\<lambda>pod. Status_Phase pod = ''Running'') (Items pods)))))"

text \<open>Lines 158-161: the body of the loop over the steps.\<close>

definition runStep :: "step_io \<Rightarrow> GetPodsOutput \<Rightarrow> Step \<Rightarrow> run_state \<Rightarrow> fault + run_state" where
  "runStep io pods step st =
     handleStep io pods (if EndNode step = 0 then step\<lparr>EndNode := OnNode step\<rparr> else step) st"

text \<open>Lines 157-162: the loop over the steps, \<open>n\<close> counting them.\<close>

fun runSteps :: "(nat \<Rightarrow> step_io) \<Rightarrow> GetPodsOutput \<Rightarrow> Step list \<Rightarrow> nat \<Rightarrow> run_state \<Rightarrow> fault + run_state" where
  "runSteps ios pods [] n st = Inr st"
| "runSteps ios pods (step # steps) n st =
     (case runStep (ios n) pods step st of
        Inl f \<Rightarrow> Inl f
      | Inr st' \<Rightarrow> runSteps ios pods steps (Suc n) st')"

text \<open>
  Lines 134-163: one repetition. The state carries the environment from one repetition
  to the next, so that line 156, which makes it empty, is a step of the model. The error
  of \<open>getPods\<close> at line 154 is not checked: the nil pointer is dereferenced at line 161.
\<close>

definition repetition :: "world \<Rightarrow> Test \<Rightarrow> nat \<Rightarrow> run_state \<Rightarrow> fault + run_state" where
  "repetition w test i st =
     (case getRunningPods (podsBefore w i) of
        Inl f \<Rightarrow> Inl f
      | Inr running_nodes \<Rightarrow>
          if Nodes (Conf test) > running_nodes \<and> scaleTo w i = ScaleFailed then Inl Fatal
          else if Nodes (Conf test) > running_nodes \<and> scaleTo w i = ScaleForever
          then Inl ScaleNeverReady
          else
            (case podsAfter w i of
               None \<Rightarrow> (if Steps test = [] then
                            Inr (st\<lparr>st_summary := (st_summary st)\<lparr>TestsRan := TestsRan (st_summary st) + 1\<rparr>,
                                    st_env := []\<rparr>)
                          else Inl NilDereference)
             | Some pods \<Rightarrow>
                 (case runSteps (stepIo w i) pods (Steps test) 0 (st\<lparr>st_env := []\<rparr>) of
                    Inl f \<Rightarrow> Inl f
                  | Inr st' \<Rightarrow>
                      Inr (st'\<lparr>st_summary := (st_summary st')\<lparr>TestsRan := TestsRan (st_summary st') + 1\<rparr>\<rparr>))))"

text \<open>Lines 133-164: the loop over the repetitions \<open>is\<close>.\<close>

fun repetitions :: "world \<Rightarrow> Test \<Rightarrow> nat list \<Rightarrow> run_state \<Rightarrow> fault + run_state" where
  "repetitions w test [] st = Inr st"
| "repetitions w test (i # is) st =
     (case repetition w test i st of
        Inl f \<Rightarrow> Inl f
      | Inr st' \<Rightarrow> repetitions w test is st')"



section \<open>The two channels (main.go, lines 186-187, 329, 366-367)\<close>

text \<open>
  The goroutine of a call sends its lines on \<open>outputStrings\<close> (line 366), its flag on
  \<open>outputErr\<close> (line 367) and, when it returns, its lines once more (the deferred
  function of lines 328-330). Both channels are queues, and turn \<open>k\<close> of the
  collecting loop takes the \<open>k\<close>-th element of each (lines 195-196).
  \<open>sequential_io answer finished\<close> is what the loop receives when the calls make
  their sends one call after the other, \<open>finished i\<close> being the call that is the
  \<open>i\<close>-th to do so and \<open>answer c\<close> the standard output and the timer's outcome of the
  call started \<open>c\<close>-th: \<open>outputStrings\<close> then carries the lines of \<open>finished 0\<close>
  twice, those of \<open>finished 1\<close> twice, and so on, \<open>outputErr\<close> the flag of
  \<open>finished 0\<close>, that of \<open>finished 1\<close>, and so on. Every file can be opened.
\<close>

definition sequential_io :: "(nat \<Rightarrow> string \<times> bool) \<Rightarrow> (nat \<Rightarrow> nat) \<Rightarrow> step_io" where
  "sequential_io answer finished =
     \<lparr>received = (\<lambda>calls k. (fst (answer (finished (k div 2))), snd (answer (finished k)))),
      opened = (\<lambda>k. True)\<rparr>"

section \<open>Lookup by name (spec.md, section 4.2)\<close>

text \<open>
  The rule of the specification, in its words, for comparison with \<open>expectedValue\<close>:
  the environment as a list of bindings (name, value); the value of the first binding
  whose name equals the target and whose value is not empty, else the target itself.
\<close>

fun find_binding :: "string \<Rightarrow> (string \<times> string) list \<Rightarrow> string option" where
  "find_binding target [] = None"
| "find_binding target (b # bs) =
     (if fst b = target \<and> snd b \<noteq> [] then Some (snd b) else find_binding target bs)"

definition value_by_name :: "string \<Rightarrow> (string \<times> string) list \<Rightarrow> string" where
  "value_by_name target bs = (case find_binding target bs of None \<Rightarrow> target | Some v \<Rightarrow> v)"

text \<open>
  The targets and bindings on which the program agrees with that rule: a target of
  ASCII characters none of which is special in a pattern or a double quote; a binding
  of ASCII characters with no double quote in the name and no newline in the value.
\<close>

definition plain :: "char \<Rightarrow> bool" where
  "plain c = (ascii c \<and> \<not> special c \<and> c \<noteq> CHR 0x22)"

definition well_formed_binding :: "string \<times> string \<Rightarrow> bool" where
  "well_formed_binding b =
     (list_all ascii (fst b) \<and> CHR 0x22 \<notin> set (fst b)
      \<and> list_all ascii (snd b) \<and> CHR 0x0A \<notin> set (snd b))"

text \<open>The pieces of a pattern that is a literal text.\<close>

abbreviation lits :: "string \<Rightarrow> piece list" where
  "lits t \<equiv> map (\<lambda>c. One (Lit c)) t"

section \<open>Example inputs\<close>

text \<open>Concrete pods, steps and answers of the cluster, for the instances below.\<close>

definition two_pods :: "Pod list" where
  "two_pods =
     [\<lparr>Metadata_Name = ''pod-a'', Status_Phase = ''Running''\<rparr>,
      \<lparr>Metadata_Name = ''pod-b'', Status_Phase = ''Running''\<rparr>]"

definition plain_step :: Step where
  "plain_step =
     \<lparr>Name = ''list'', OnNode = 1, EndNode = 0, CMD = ''ls'', Timeout = 0, Outputs = [],
      Inputs = [], Assertions = [], WriteToFile = []\<rparr>"

definition two_node_step :: Step where
  "two_node_step =
     \<lparr>Name = ''everywhere'', OnNode = 1, EndNode = 2, CMD = ''hostname'', Timeout = 0,
      Outputs = [], Inputs = [], Assertions = [], WriteToFile = []\<rparr>"

definition second_line_step :: Step where
  "second_line_step =
     \<lparr>Name = ''second line'', OnNode = 1, EndNode = 1, CMD = ''seq 2'', Timeout = 0,
      Outputs = [\<lparr>Line = 1, SaveTo = ''X'', SaveToFile = []\<rparr>], Inputs = [], Assertions = [],
      WriteToFile = []\<rparr>"

definition busy_step :: Step where
  "busy_step =
     \<lparr>Name = ''busy'', OnNode = 1, EndNode = 2, CMD = ''sleep 5; echo x'', Timeout = 1,
      Outputs = [\<lparr>Line = 0, SaveTo = ''X'', SaveToFile = []\<rparr>],
      Inputs = [], Assertions = [\<lparr>ALine = 0, ShouldBeEqualTo = ''x''\<rparr>],
      WriteToFile = ''out.txt''\<rparr>"

definition start_state :: run_state where
  "start_state =
     \<lparr>st_summary = \<lparr>Successes = 0, Failures = 0, TestsToRun = 1, TestsRan = 0, Timeouts = 0\<rparr>,
      st_env = [], st_files = []\<rparr>"

definition three_pods :: "Pod list" where
  "three_pods = two_pods @ [\<lparr>Metadata_Name = ''pod-c'', Status_Phase = ''Running''\<rparr>]"

definition three_node_step :: Step where
  "three_node_step =
     busy_step\<lparr>EndNode := 3, Assertions := [\<lparr>ALine = 0, ShouldBeEqualTo = ''y''\<rparr>]\<rparr>"

definition first_times_out :: "nat \<Rightarrow> string \<times> bool" where
  "first_times_out c =
     (if c = 0 then (''x'', True) else if c = 1 then (''y'', False) else (''z'', False))"

definition timed_out_last :: "nat \<Rightarrow> nat" where
  "timed_out_last k = (if k = 0 then 1 else if k = 1 then 2 else 0)"

definition quiet_io :: step_io where
  "quiet_io = \<lparr>received = (\<lambda>calls k. (''ok\<newline>'', False)), opened = (\<lambda>k. True)\<rparr>"

definition quiet_world :: world where
  "quiet_world =
     \<lparr>podsBefore = (\<lambda>i. Some \<lparr>Items = two_pods\<rparr>), scaleTo = (\<lambda>i. ScaleDone),
      podsAfter = (\<lambda>i. Some \<lparr>Items = two_pods\<rparr>), stepIo = (\<lambda>i n. quiet_io)\<rparr>"

definition one_step_test :: Test where
  "one_step_test =
     \<lparr>TName = ''t'',
      Conf = \<lparr>Nodes = 2, Selector = ''app=x'', Times = 1, GraceShutdown = 0,
               Expect = \<lparr>ESuccesses = 1, EFailures = 0, ETimeouts = 0\<rparr>\<rparr>,
      Steps = [plain_step\<lparr>Assertions := [\<lparr>ALine = 0, ShouldBeEqualTo = ''ok''\<rparr>]\<rparr>]\<rparr>"

section \<open>The outcome and the exit status\<close>






section \<open>Starting the calls\<close>

text \<open>
  Every call of one step goes to the pod at position \<open>OnNode\<close>: the loop variable of
  lines 188-191 is not used in the loop's body.
\<close>

lemma dispatch_pods:
  "dispatch items step es js = Inr calls \<Longrightarrow>
     map call_pod calls = replicate (length js) (Metadata_Name (items ! nat (OnNode step - 1)))"
  by (induction js arbitrary: calls) (auto simp: runInPodAsync_def split: if_splits sum.splits)

text \<open>
  C1. The claim: for every node index \<open>j\<close> from \<open>OnNode\<close> to \<open>EndNode\<close> the call
  started for \<open>j\<close> uses the pod at position \<open>j\<close>. The program, for a step on the nodes 1
  to 2 of the pods \<open>pod-a\<close>, \<open>pod-b\<close>: both calls go to \<open>pod-a\<close>, none to \<open>pod-b\<close>.
\<close>

theorem dispatch_two_nodes:
  "dispatch two_pods two_node_step [] [OnNode two_node_step..EndNode two_node_step] =
     Inr [\<lparr>call_pod = ''pod-a'', call_script = ''hostname'', call_timeout = 0\<rparr>,
          \<lparr>call_pod = ''pod-a'', call_script = ''hostname'', call_timeout = 0\<rparr>]"
  by (simp add: two_node_step_def two_pods_def runInPodAsync_def envString_def upto.simps)

section \<open>Output bindings\<close>

text \<open>The declared line of an output binding is never read by the loop of lines 210-218.\<close>

lemma saveOutputs_ignores_Line:
  "saveOutputs (map (\<lambda>output. output\<lparr>Line := f output\<rparr>) outputs) index out es =
     saveOutputs outputs index out es"
  by (induction outputs arbitrary: index es) simp_all

text \<open>
  C2. The claim: an output binding binds its variable to the captured line at the
  binding's declared line index. The program, for one binding that declares line 1 and
  the captured lines \<open>a\<close>, \<open>b\<close>: the variable is bound to \<open>a\<close>, the line at the
  binding's position 0 in the list of bindings.
\<close>

theorem output_binding_by_position:
  "handleResult second_line_step True ([''a'', ''b''], False) start_state =
     Inr (start_state\<lparr>st_env := [binding ''X'' ''a'']\<rparr>)"
  by (simp add: handleResult_def second_line_step_def start_state_def)

section \<open>The captured lines\<close>

lemma Split_newline_not_empty: "Split_newline s \<noteq> []"
  by (induction s) (auto split: list.splits)

text \<open>An output that ends in a newline always yields a last line that is empty.\<close>

lemma Split_newline_trailing: "Split_newline (s @ [CHR 0x0A]) = Split_newline s @ [[]]"
  by (induction s) (simp_all split: list.split add: Split_newline_not_empty)

text \<open>No line of the split holds a newline.\<close>

lemma Split_newline_no_newline: "l \<in> set (Split_newline s) \<Longrightarrow> CHR 0x0A \<notin> set l"
proof (induction s arbitrary: l)
  case Nil
  then show ?case by simp
next
  case (Cons c s)
  then show ?case
    by (cases "Split_newline s") (auto split: if_splits)
qed

text \<open>A timeout of 0 starts no timer: the flag a call sends back is never set.\<close>

lemma no_timer_without_timeout: "snd (runInPodAsync_result 0 r) = False"
  by (simp add: runInPodAsync_result_def)

text \<open>
  C3. The claim: the lines a call returns are the standard output split at newlines with
  the trailing empty line stripped. The program, for the output \<open>ok\<close> followed by a
  newline: \<open>runInPodAsync\<close>, which \<open>handleStep\<close> uses, sends the lines \<open>ok\<close> and the
  empty line; \<open>runInPod\<close>, which nothing calls, returns the line \<open>ok\<close> alone.
\<close>

theorem async_lines_keep_trailing_empty:
  "fst (runInPodAsync_result 0 (''ok\<newline>'', False)) = [''ok'', []]
   \<and> fst (runInPod_result 0 (''ok\<newline>'', False)) = [''ok'']"
  by (simp add: runInPodAsync_result_def runInPod_result_def)

section \<open>Results that timed out\<close>

lemma handleResult_timed_out:
  "snd r \<Longrightarrow>
     handleResult step canOpen r st =
       Inr (st\<lparr>st_summary := (st_summary st)\<lparr>Timeouts := Timeouts (st_summary st) + 1\<rparr>\<rparr>)"
  by (simp add: handleResult_def)

text \<open>
  A turn of the collecting loop whose flag is set adds one to \<open>Timeouts\<close> and changes
  nothing else, and the loop goes on with the next turns from that state.
\<close>

lemma flagged_turn_only_counted:
  assumes "snd (runInPodAsync_result (Timeout step) (received io calls k))"
  shows "handleResults step io calls (k # ks) st =
           handleResults step io calls ks
             (st\<lparr>st_summary := (st_summary st)\<lparr>Timeouts := Timeouts (st_summary st) + 1\<rparr>\<rparr>)"
  using assms by (simp add: handleResult_timed_out)

text \<open>
  C6. The claim: the result of a node that timed out adds one to \<open>Timeouts\<close> and is
  neither written to the file, nor bound, nor asserted on, and the results of the other
  nodes of the step are still processed. The program pairs the \<open>k\<close>-th lines with the
  \<open>k\<close>-th flag, and every call sends its lines twice and its flag once. For a step on
  two nodes whose first call times out after printing \<open>x\<close> and makes its sends before
  the second call, which prints \<open>y\<close> in time: one timeout is counted, and the lines
  \<open>x\<close> of the call that timed out are written to the file, bound to \<open>X\<close> and asserted
  on with success, while \<open>y\<close> is never processed. For a step on three nodes whose first
  call times out and sends last, after the calls that print \<open>y\<close> and \<open>z\<close>: \<open>y\<close> is
  processed twice and \<open>z\<close>, the result of a call that did not time out, is dropped as
  the one that timed out.
\<close>

theorem timed_out_output_processed:
  "handleStep (sequential_io first_times_out (\<lambda>k. k)) \<lparr>Items = two_pods\<rparr> busy_step start_state =
     Inr \<lparr>st_summary = \<lparr>Successes = 1, Failures = 0, TestsToRun = 1, TestsRan = 0, Timeouts = 1\<rparr>,
          st_env = [binding ''X'' ''x''], st_files = [(''out.txt'', ''x'')]\<rparr>
   \<and> handleStep (sequential_io first_times_out timed_out_last) \<lparr>Items = three_pods\<rparr>
        three_node_step start_state =
     Inr \<lparr>st_summary = \<lparr>Successes = 2, Failures = 0, TestsToRun = 1, TestsRan = 0, Timeouts = 1\<rparr>,
          st_env = [binding ''X'' ''y'', binding ''X'' ''y''],
          st_files = [(''out.txt'', ''y''), (''out.txt'', ''y'')]\<rparr>"
  by code_simp

section \<open>The environment of a repetition\<close>

lemma repetition_ignores_env:
  "repetition w test i (st\<lparr>st_env := es\<rparr>) = repetition w test i st"
  by (simp add: repetition_def split: sum.split option.split)

text \<open>
  C8. A repetition makes the environment empty before its first step: whatever
  environment the repetition before left, the repetition, and with it the rest of the
  run, does the same as from any other environment. No binding of repetition \<open>i\<close>
  reaches a step of repetition \<open>i + 1\<close>.
\<close>

theorem environment_reset:
  "repetition w test i (st\<lparr>st_env := es\<rparr>) = repetition w test i st
   \<and> repetitions w test (i # later) (st\<lparr>st_env := es\<rparr>) = repetitions w test (i # later) st"
  by (simp add: repetition_ignores_env)

theorem environment_reset_witness:
  "repetition quiet_world one_step_test 0 (start_state\<lparr>st_env := [binding ''ok'' ''stale'']\<rparr>) =
     Inr (start_state\<lparr>st_summary := (st_summary start_state)\<lparr>Successes := 1, TestsRan := 1\<rparr>\<rparr>)"
proof -
  have "repetition quiet_world one_step_test 0 start_state =
          Inr (start_state\<lparr>st_summary := (st_summary start_state)\<lparr>Successes := 1, TestsRan := 1\<rparr>\<rparr>)"
    by code_simp
  then show ?thesis
    using environment_reset [where w = quiet_world and test = one_step_test and i = 0
        and st = start_state and es = "[binding ''ok'' ''stale'']" and later = "[]"]
    by simp
qed

section \<open>The default of EndNode\<close>

text \<open>
  C9. A step whose \<open>EndNode\<close> is 0 is run as the step with \<open>EndNode\<close> set to
  \<open>OnNode\<close>: the calls are started for the single node index \<open>OnNode\<close>, and one pair is
  collected.
\<close>

theorem endNode_default:
  assumes "EndNode step = 0"
  shows "runStep io pods step st = handleStep io pods (step\<lparr>EndNode := OnNode step\<rparr>) st
         \<and> runStep io pods step st =
             (case dispatch (Items pods) (step\<lparr>EndNode := OnNode step\<rparr>) (st_env st) [OnNode step] of
                Inl f \<Rightarrow> Inl f
              | Inr calls \<Rightarrow> handleResults (step\<lparr>EndNode := OnNode step\<rparr>) io calls [0] st)"
  using assms by (simp add: runStep_def handleStep_def Let_def)

theorem endNode_default_witness:
  "EndNode plain_step = 0
   \<and> runStep quiet_io \<lparr>Items = two_pods\<rparr> plain_step start_state =
       handleStep quiet_io \<lparr>Items = two_pods\<rparr> (plain_step\<lparr>EndNode := 1\<rparr>) start_state"
  using endNode_default [of plain_step quiet_io "\<lparr>Items = two_pods\<rparr>" start_state]
  by (simp add: plain_step_def)

section \<open>The value an assertion compares with\<close>

text \<open>
  For a plain target and well-formed bindings the search of lines 231-240 is the lookup
  by name: the pattern compiles to the literal text of the target followed by the
  template, and it matches exactly the entries of that name.
\<close>

lemma plain_atom: "plain c \<Longrightarrow> atom_of c = Some (Lit c) \<and> c \<noteq> CHR ''('' \<and> c \<noteq> CHR '')'' \<and> c \<noteq> CHR ''*''"
  by (auto simp: plain_def atom_of_def special_def)

lemma parse_plain:
  "list_all plain t \<Longrightarrow> rest \<noteq> [] \<Longrightarrow> hd rest \<noteq> CHR ''*'' \<Longrightarrow>
     parse (t @ rest) g = map_option ((@) (lits t)) (parse rest g)"
proof (induction t)
  case Nil
  then show ?case by (simp add: option.map_ident)
next
  case (Cons c cs)
  from Cons.prems have c: "atom_of c = Some (Lit c)" "c \<noteq> CHR ''(''" "c \<noteq> CHR '')''"
    using plain_atom by auto
  obtain d ds where d: "cs @ rest = d # ds"
    using Cons.prems(2) by (cases "cs @ rest") auto
  have "d \<noteq> CHR ''*''"
  proof (cases cs)
    case Nil
    with d Cons.prems show ?thesis by (cases rest) auto
  next
    case (Cons x xs)
    with d Cons.prems have "d = x" "plain x" by auto
    then show ?thesis using plain_atom by auto
  qed
  with c d have "parse ((c # cs) @ rest) g = map_option (Cons (One (Lit c))) (parse (cs @ rest) g)"
    by simp
  also have "\<dots> = map_option (Cons (One (Lit c))) (map_option ((@) (lits cs)) (parse rest g))"
    using Cons by simp
  also have "\<dots> = map_option ((@) (lits (c # cs))) (parse rest g)"
    by (cases "parse rest g") simp_all
  finally show ?case .
qed

lemma parse_template:
  "parse ''=\"(.*)\"'' False =
     Some [One (Lit CHR ''=''), One (Lit CHR 0x22), Open, Star AnyChar, Close, One (Lit CHR 0x22)]"
  by (simp add: atom_of_def special_def ascii_def)

lemma MustCompile_plain:
  assumes "list_all plain t"
  shows "MustCompile (''^'' @ t @ ''=\"(.*)\"$'') =
           Some (lits (t @ ''=\"'') @ [Open, Star AnyChar, Close, One (Lit CHR 0x22)])"
proof -
  have "parse (t @ ''=\"(.*)\"'') False = map_option ((@) (lits t)) (parse ''=\"(.*)\"'' False)"
    using assms by (intro parse_plain) simp_all
  then have p: "parse (t @ ''=\"(.*)\"'') False =
      Some (lits (t @ ''=\"'') @ [Open, Star AnyChar, Close, One (Lit CHR 0x22)])"
    unfolding parse_template by simp
  have "butlast (t @ ''=\"(.*)\"$'') = t @ ''=\"(.*)\"''"
    by (simp add: butlast_append)
  moreover have "last (t @ ''=\"(.*)\"$'') = CHR ''$''"
    by simp
  ultimately show ?thesis
    unfolding MustCompile_def by (simp only: p append_Cons append_Nil list.case) simp
qed

lemma rmatch_lits:
  "rmatch (lits t @ ps) s done None =
     (if take (length t) s = t then rmatch ps (drop (length t) s) done None else None)"
proof (induction t arbitrary: s)
  case Nil
  then show ?case by simp
next
  case (Cons c cs)
  then show ?case by (cases s) auto
qed

lemma rmatch_group_tail:
  "rmatch [Star AnyChar, Close, One (Lit CHR 0x22)] s done (Some w) =
     (if s \<noteq> [] \<and> last s = CHR 0x22 \<and> CHR 0x0A \<notin> set (butlast s)
      then Some (done @ [w @ butlast s]) else None)"
proof (induction s arbitrary: w)
  case Nil
  then show ?case by simp
next
  case (Cons c s)
  show ?case
  proof (cases "c = CHR 0x0A")
    case True
    then show ?thesis by (cases s) auto
  next
    case False
    then show ?thesis using Cons [of "w @ [c]"] by (cases s) auto
  qed
qed

lemma first_occurrence:
  "x \<notin> set xs \<Longrightarrow> x \<notin> set ys \<Longrightarrow> xs @ x # r = ys @ x # r' \<Longrightarrow> xs = ys"
proof (induction xs arbitrary: ys)
  case Nil
  then show ?case by (cases ys) auto
next
  case (Cons a xs)
  then show ?case by (cases ys) auto
qed

lemma split_at_quote:
  assumes "CHR 0x22 \<notin> set t" "CHR 0x22 \<notin> set n"
    and "t @ CHR ''='' # CHR 0x22 # r = n @ CHR ''='' # CHR 0x22 # r'"
  shows "n = t"
proof -
  have eq: "(t @ [CHR ''='']) @ CHR 0x22 # r = (n @ [CHR ''='']) @ CHR 0x22 # r'"
    using assms(3) by simp
  have f1: "CHR 0x22 \<notin> set (t @ [CHR ''=''])" and f2: "CHR 0x22 \<notin> set (n @ [CHR ''=''])"
    using assms(1,2) by simp_all
  have "t @ [CHR ''=''] = n @ [CHR ''='']"
    by (rule first_occurrence [OF f1 f2 eq])
  then show ?thesis by simp
qed

lemma take_binding:
  assumes "CHR 0x22 \<notin> set t" "CHR 0x22 \<notin> set n"
  shows "(take (length (t @ ''=\"'')) (binding n v) = t @ ''=\"'') = (n = t)"
proof
  assume a: "take (length (t @ ''=\"'')) (binding n v) = t @ ''=\"''"
  have "take (length (t @ ''=\"'')) (binding n v) @ drop (length (t @ ''=\"'')) (binding n v) = binding n v"
    by (rule append_take_drop_id)
  then have "(t @ ''=\"'') @ drop (length (t @ ''=\"'')) (binding n v) = binding n v"
    by (simp only: a)
  then have "t @ CHR ''='' # CHR 0x22 # drop (length (t @ ''=\"'')) (binding n v) =
             n @ CHR ''='' # CHR 0x22 # (v @ ''\"'')"
    by (simp add: binding_def)
  then show "n = t"
    using assms by (rule split_at_quote [rotated 2])
next
  assume "n = t"
  then show "take (length (t @ ''=\"'')) (binding n v) = t @ ''=\"''"
    by (simp add: binding_def)
qed

lemma rmatch_plain:
  assumes "CHR 0x22 \<notin> set t" "CHR 0x22 \<notin> set n" "CHR 0x0A \<notin> set v"
  shows "rmatch (lits (t @ ''=\"'') @ [Open, Star AnyChar, Close, One (Lit CHR 0x22)])
           (binding n v) [] None = (if n = t then Some [v] else None)"
proof -
  define T where "T = t @ ''=\"''"
  have r: "rmatch (lits T @ [Open, Star AnyChar, Close, One (Lit CHR 0x22)]) (binding n v) [] None =
        (if take (length T) (binding n v) = T
         then rmatch [Open, Star AnyChar, Close, One (Lit CHR 0x22)]
                (drop (length T) (binding n v)) [] None
         else None)"
    by (rule rmatch_lits)
  have t: "(take (length T) (binding n v) = T) = (n = t)"
    unfolding T_def using assms(1,2) by (rule take_binding)
  have d: "n = t \<Longrightarrow> drop (length T) (binding n v) = v @ ''\"''"
    by (simp add: T_def binding_def)
  have g: "rmatch [Open, Star AnyChar, Close, One (Lit CHR 0x22)] (v @ ''\"'') [] None = Some [v]"
    using assms(3) by (simp add: rmatch_group_tail)
  show ?thesis
    using r t d g unfolding T_def by (cases "n = t") simp_all
qed

lemma FindStringSubmatch_plain:
  assumes "list_all plain t" "well_formed_binding (n, v)"
  shows "FindStringSubmatch (lits (t @ ''=\"'') @ [Open, Star AnyChar, Close, One (Lit CHR 0x22)])
           (binding n v) = Some (if n = t then [binding n v, v] else [])"
proof -
  have q: "CHR 0x22 \<notin> set t"
    using assms(1) by (auto simp: list_all_iff plain_def)
  have a: "list_all ascii (binding n v)"
    using assms(2) by (simp add: well_formed_binding_def binding_def ascii_def)
  have m: "rmatch (lits (t @ ''=\"'') @ [Open, Star AnyChar, Close, One (Lit CHR 0x22)])
             (binding n v) [] None = (if n = t then Some [v] else None)"
    using q assms(2) by (intro rmatch_plain) (simp_all add: well_formed_binding_def)
  show ?thesis
    unfolding FindStringSubmatch_def m using a by simp
qed

lemma findValue_step:
  assumes "list_all plain target" "well_formed_binding (n, v)"
  shows "findValue target (binding n v # es) =
           (if n = target \<and> v \<noteq> [] then Inr v else findValue target es)"
proof -
  have "findValue target (binding n v # es) =
     (case MustCompile (''^'' @ target @ ''=\"(.*)\"$'') of
        None \<Rightarrow> Inl RegexpOutsideModel
      | Some rex \<Rightarrow>
          (case FindStringSubmatch rex (binding n v) of
             None \<Rightarrow> Inl RegexpOutsideModel
           | Some found \<Rightarrow>
               if length found = 2 \<and> found ! 1 \<noteq> [] then Inr (found ! 1)
               else findValue target es))"
    by (rule findValue.simps(2))
  also have "\<dots> =
     (let found = (if n = target then [binding n v, v] else []) in
      if length found = 2 \<and> found ! 1 \<noteq> [] then Inr (found ! 1) else findValue target es)"
    by (simp only: MustCompile_plain [OF assms(1)] FindStringSubmatch_plain [OF assms]
        option.case Let_def)
  also have "\<dots> = (if n = target \<and> v \<noteq> [] then Inr v else findValue target es)"
    by (simp del: findValue.simps)
  finally show ?thesis .
qed

lemma findValue_plain:
  assumes "list_all plain target" "list_all well_formed_binding bs"
  shows "findValue target (map (\<lambda>b. binding (fst b) (snd b)) bs) =
           Inr (case find_binding target bs of None \<Rightarrow> [] | Some v \<Rightarrow> v)"
  using assms(2)
proof (induction bs)
  case Nil
  then show ?case by simp
next
  case (Cons b bs)
  from Cons.prems have w: "well_formed_binding (fst b, snd b)" by simp
  from Cons have ih: "findValue target (map (\<lambda>b. binding (fst b) (snd b)) bs) =
           Inr (case find_binding target bs of None \<Rightarrow> [] | Some v \<Rightarrow> v)"
    by simp
  have "findValue target (map (\<lambda>b. binding (fst b) (snd b)) (b # bs)) =
          findValue target (binding (fst b) (snd b) # map (\<lambda>b. binding (fst b) (snd b)) bs)"
    by (simp del: findValue.simps)
  also have "\<dots> = (if fst b = target \<and> snd b \<noteq> [] then Inr (snd b)
                    else findValue target (map (\<lambda>b. binding (fst b) (snd b)) bs))"
    by (rule findValue_step [OF assms(1) w])
  also have "\<dots> = Inr (case find_binding target (b # bs) of None \<Rightarrow> [] | Some v \<Rightarrow> v)"
    by (simp add: ih del: findValue.simps)
  finally show ?case .
qed

lemma find_binding_not_empty: "find_binding target bs = Some v \<Longrightarrow> v \<noteq> []"
  by (induction bs) (auto split: if_splits)

lemma expectedValue_plain:
  assumes "list_all plain target" "list_all well_formed_binding bs"
  shows "expectedValue target (map (\<lambda>b. binding (fst b) (snd b)) bs) = Inr (value_by_name target bs)"
proof (cases "find_binding target bs")
  case None
  then show ?thesis
    by (simp add: expectedValue_def findValue_plain [OF assms] value_by_name_def)
next
  case (Some v)
  then show ?thesis
    using find_binding_not_empty [OF Some]
    by (simp add: expectedValue_def findValue_plain [OF assms] value_by_name_def)
qed

text \<open>
  C5. The claim: the value is that of the first binding whose name equals the target and
  whose value is not empty, and the target itself when there is none. The program, for
  the target \<open>H.SH\<close> and the single binding of \<open>HASH\<close> to \<open>abc\<close>: no binding is named
  \<open>H.SH\<close>, and the value is \<open>abc\<close>, not \<open>H.SH\<close>.
\<close>

theorem pattern_target_takes_other_binding:
  "expectedValue ''H.SH'' [binding ''HASH'' ''abc''] = Inr ''abc''"
  by code_simp

text \<open>
  C10. There are a target with a metacharacter of regular expressions, a name that
  differs from the target, and a line such that, in the environment that binds the name
  to the line, the search of lines 231-240 finds the line, and the value compared with is
  that line and not the target.
\<close>

theorem metacharacter_target_matches_other_name:
  "\<exists>target name line.
     list_ex special target \<and> name \<noteq> target \<and> line \<noteq> target
     \<and> findValue target [binding name line] = Inr line
     \<and> expectedValue target [binding name line] = Inr line"
proof -
  have a: "findValue ''.*'' [binding ''PIDS'' ''Qm1 Qm2''] = Inr ''Qm1 Qm2''"
    by code_simp
  have b: "expectedValue ''.*'' [binding ''PIDS'' ''Qm1 Qm2''] = Inr ''Qm1 Qm2''"
    by code_simp
  have c: "list_ex special ''.*'' \<and> ''PIDS'' \<noteq> ''.*'' \<and> ''Qm1 Qm2'' \<noteq> ''.*''"
    by (simp add: special_def)
  have "list_ex special ''.*'' \<and> ''PIDS'' \<noteq> ''.*'' \<and> ''Qm1 Qm2'' \<noteq> ''.*''
     \<and> findValue ''.*'' [binding ''PIDS'' ''Qm1 Qm2''] = Inr ''Qm1 Qm2''
     \<and> expectedValue ''.*'' [binding ''PIDS'' ''Qm1 Qm2''] = Inr ''Qm1 Qm2''"
    using a b c by (simp only: simp_thms)
  then show ?thesis
    by (intro exI)
qed

end
